theory Spec2Isabelle
  imports Complex_Main
begin

section \<open>Numbers and errors of the notebooks\<close>

text \<open>
  The notebooks compute with Python and numpy floating-point numbers. The embedding reads
  every finite float as the real number it stands for, so \<open>+\<close>, \<open>*\<close>, \<open>exp\<close> and powers
  are those of \<open>real\<close> and rounding, overflow and underflow are left out. A float that is
  not a finite number (the \<open>nan\<close> or \<open>inf\<close> that a numpy division by zero produces, with a
  warning and no exception) is \<open>None\<close>; a finite float \<open>x\<close> is \<open>Some x\<close>.

  A Python exception is a value of \<open>error\<close>: \<open>ValueError\<close> is raised by a tuple
  unpacking \<open>a, b, c = y\<close> whose right-hand side has the wrong number of items, and
  \<open>KeyError k\<close> by a dictionary lookup \<open>p[k]\<close> of a key that is absent, and
  \<open>IndexError\<close> by an array index beyond the shape of the array.
\<close>

datatype error = ValueError | KeyError string | IndexError

definition bind_e :: "error + 'a \<Rightarrow> ('a \<Rightarrow> error + 'b) \<Rightarrow> error + 'b" where
  "bind_e r f = (case r of Inl e \<Rightarrow> Inl e | Inr v \<Rightarrow> f v)"

definition getitem :: "(string \<rightharpoonup> real) \<Rightarrow> string \<Rightarrow> error + real" where
  "getitem p k = (case p k of None \<Rightarrow> Inl (KeyError k) | Some v \<Rightarrow> Inr v)"

text \<open>
  Division where the divisor is computed from the input. The state that the solver hands
  to a right-hand side is a numpy array, so its items are numpy scalars and a zero
  divisor yields \<open>nan\<close> or \<open>inf\<close>: the quotient is not a finite number.
\<close>

definition fdiv :: "real \<Rightarrow> real \<Rightarrow> real option" where
  "fdiv a b = (if b = 0 then None else Some (a / b))"


section \<open>E2: the law of mass action\<close>

text \<open>
  \<^verbatim>\<open>
  def rhs(y, t, k):
      H2, O2, H2O = y
      dH2_dt = -2*k*H2*H2*O2
      dO2_dt = -k*H2*H2*O2
      dH2O_dt = k*H2*H2*O2
      return [dH2_dt, dO2_dt, dH2O_dt]
  \<close>
\<close>

definition rhs_E2 :: "real list \<Rightarrow> real \<Rightarrow> real \<Rightarrow> error + real list" where
  "rhs_E2 y t k =
     (case y of
        [H2, O2, H2O] \<Rightarrow>
          (let dH2_dt = - 2 * k * H2 * H2 * O2;
               dO2_dt = - k * H2 * H2 * O2;
               dH2O_dt = k * H2 * H2 * O2
           in Inr [dH2_dt, dO2_dt, dH2O_dt])
      | _ \<Rightarrow> Inl ValueError)"


section \<open>E6: the Hodgkin-Huxley right-hand side\<close>

subsection \<open>The transition rates\<close>

text \<open>
  The six rates are local variables of \<open>rhs\<close>, each a function of the membrane potential
  \<open>V\<close> alone:
  \<^verbatim>\<open>
  alpha_m = 0.1*(V+40.0)/(1.0-np.exp(-(V+40.0)/10.0))
  beta_m  = 4.0*np.exp(-(V+65.0)/18.0)
  alpha_h = 0.07*np.exp(-(V+65.0)/20.0)
  beta_h  = 1.0/(1.0+np.exp(-(V+35.0)/10.0))
  alpha_n = 0.01*(V+55.0)/(1.0-np.exp(-(V+55.0)/10.0))
  beta_n  = 0.125*np.exp(-(V+65)/80.0)
  \<close>
\<close>

definition alpha_m :: "real \<Rightarrow> real option" where
  "alpha_m V = fdiv (0.1 * (V + 40.0)) (1.0 - exp (- (V + 40.0) / 10.0))"

definition beta_m :: "real \<Rightarrow> real option" where
  "beta_m V = Some (4.0 * exp (- (V + 65.0) / 18.0))"

definition alpha_h :: "real \<Rightarrow> real option" where
  "alpha_h V = Some (0.07 * exp (- (V + 65.0) / 20.0))"

definition beta_h :: "real \<Rightarrow> real option" where
  "beta_h V = fdiv 1.0 (1.0 + exp (- (V + 35.0) / 10.0))"

definition alpha_n :: "real \<Rightarrow> real option" where
  "alpha_n V = fdiv (0.01 * (V + 55.0)) (1.0 - exp (- (V + 55.0) / 10.0))"

definition beta_n :: "real \<Rightarrow> real option" where
  "beta_n V = Some (0.125 * exp (- (V + 65) / 80.0))"

text \<open>
  A gating derivative \<open>alpha*(1-x) - beta*(x)\<close>. A rate that is not a finite number
  makes the derivative not a finite number.
\<close>

definition gate_dt :: "real option \<Rightarrow> real option \<Rightarrow> real \<Rightarrow> real option" where
  "gate_dt alpha beta x =
     (case alpha of
        None \<Rightarrow> None
      | Some a \<Rightarrow> (case beta of None \<Rightarrow> None | Some b \<Rightarrow> Some (a * (1 - x) - b * x)))"

subsection \<open>The currents\<close>

text \<open>
  \<^verbatim>\<open>
  I_app = -I_amp if 2<t<4 else 0.0
  I_Na = gNa*m**3*h*(V - E_Na)
  I_K = gK*n**4*(V - E_K)
  I_L = gL*(V - E_L)
  \<close>
  Python's chained comparison \<open>2<t<4\<close> is \<open>2 < t and t < 4\<close>.
\<close>

definition I_app :: "real \<Rightarrow> real \<Rightarrow> real" where
  "I_app t I_amp = (if 2 < t \<and> t < 4 then - I_amp else 0.0)"

definition I_Na :: "real \<Rightarrow> real \<Rightarrow> real \<Rightarrow> real \<Rightarrow> real \<Rightarrow> real" where
  "I_Na gNa m h V E_Na = gNa * m ^ 3 * h * (V - E_Na)"

definition I_K :: "real \<Rightarrow> real \<Rightarrow> real \<Rightarrow> real \<Rightarrow> real" where
  "I_K gK n V E_K = gK * n ^ 4 * (V - E_K)"

definition I_L :: "real \<Rightarrow> real \<Rightarrow> real \<Rightarrow> real" where
  "I_L gL V E_L = gL * (V - E_L)"

subsection \<open>The function \<open>rhs\<close>\<close>

text \<open>
  \<^verbatim>\<open>
  def rhs(y,t,p):
      m, h, n, V = y
      Cm = p['Cm']
      E_Na = p['E_Na']
      E_K = p['E_K']
      E_L = p['E_L']
      gNa = p['gNa']
      gK = p['gK']
      gL = p['gL']
      I_amp = p['I_amp']
      ...
      dm_dt = alpha_m*(1-m) - beta_m*(m)
      dh_dt = alpha_h*(1-h) - beta_h*(h)
      dn_dt = alpha_n*(1-n) - beta_n*(n)
      dV_dt = -(I_Na + I_app + I_K)/Cm
      return[dm_dt,dh_dt,dn_dt,dV_dt]
  \<close>
  The unpacking and the eight lookups come first and in this order, so the first of them
  that fails decides the exception. The leak current \<open>I_L\<close> is computed and then not used:
  \<open>dV_dt\<close> is formed from \<open>I_Na\<close>, \<open>I_app\<close> and \<open>I_K\<close> only.
\<close>

definition rhs_E6 :: "real list \<Rightarrow> real \<Rightarrow> (string \<rightharpoonup> real) \<Rightarrow> error + real option list" where
  "rhs_E6 y t p =
     (case y of
        [m, h, n, V] \<Rightarrow>
          bind_e (getitem p ''Cm'') (\<lambda>Cm.
          bind_e (getitem p ''E_Na'') (\<lambda>E_Na.
          bind_e (getitem p ''E_K'') (\<lambda>E_K.
          bind_e (getitem p ''E_L'') (\<lambda>E_L.
          bind_e (getitem p ''gNa'') (\<lambda>gNa.
          bind_e (getitem p ''gK'') (\<lambda>gK.
          bind_e (getitem p ''gL'') (\<lambda>gL.
          bind_e (getitem p ''I_amp'') (\<lambda>I_amp.
            (let i_app = I_app t I_amp;
                 i_Na = I_Na gNa m h V E_Na;
                 i_K = I_K gK n V E_K;
                 i_L = I_L gL V E_L;
                 dm_dt = gate_dt (alpha_m V) (beta_m V) m;
                 dh_dt = gate_dt (alpha_h V) (beta_h V) h;
                 dn_dt = gate_dt (alpha_n V) (beta_n V) n;
                 dV_dt = fdiv (- (i_Na + i_app + i_K)) Cm
             in Inr [dm_dt, dh_dt, dn_dt, dV_dt])))))))))
      | _ \<Rightarrow> Inl ValueError)"

subsection \<open>The initial condition and the parameters of the notebook\<close>

text \<open>
  \<^verbatim>\<open>
  m0 = 0; h0 = 1; n0 = 0; V0 = -80
  y0 = [m0,h0,n0,V0]
  p = {}
  p['Cm'] = 1.0; p['E_Na'] = 50; p['E_K'] = -80; p['E_L'] = -75
  p['gNa'] = 120; p['gK'] = 40; p['gL'] = 0.3; p['I_amp'] = 100
  \<close>
  \<open>params\<close> is the dictionary that these eight assignments build, for any eight values.
\<close>

definition params ::
  "real \<Rightarrow> real \<Rightarrow> real \<Rightarrow> real \<Rightarrow> real \<Rightarrow> real \<Rightarrow> real \<Rightarrow> real \<Rightarrow> (string \<rightharpoonup> real)" where
  "params Cm E_Na E_K E_L gNa gK gL I_amp =
     [''Cm'' \<mapsto> Cm, ''E_Na'' \<mapsto> E_Na, ''E_K'' \<mapsto> E_K, ''E_L'' \<mapsto> E_L,
      ''gNa'' \<mapsto> gNa, ''gK'' \<mapsto> gK, ''gL'' \<mapsto> gL, ''I_amp'' \<mapsto> I_amp]"

definition m0 :: real where "m0 = 0"
definition h0 :: real where "h0 = 1"
definition n0 :: real where "n0 = 0"
definition V0 :: real where "V0 = - 80"

definition y0 :: "real list" where
  "y0 = [m0, h0, n0, V0]"

definition p_E6 :: "string \<rightharpoonup> real" where
  "p_E6 = params 1.0 50 (- 80) (- 75) 120 40 0.3 100"

text \<open>The keys that \<open>rhs\<close> looks up, in the order of the lookups.\<close>

definition rhs_keys :: "string list" where
  "rhs_keys = [''Cm'', ''E_Na'', ''E_K'', ''E_L'', ''gNa'', ''gK'', ''gL'', ''I_amp'']"


subsection \<open>Running the model and plotting\<close>

text \<open>
  \<^verbatim>\<open>
  time = np.linspace(0,20,1000)

  y = odeint(rhs,y0,time,(p,))
  m = y[:,0]
  h = y[:,1]
  n = y[:,2]
  V = y[:,3]
  plt.subplot(1,2,1)
  plt.plot(time, V,'b')
  plt.subplot(1,2,2)
  plt.plot(time,m,'r',time,h,'g',time,n,'m')
  \<close>
  The solver \<open>odeint\<close> belongs to scipy and is a parameter of the model: it takes the
  right-hand side (with \<open>p\<close> already passed, as \<open>args = (p,)\<close> does), the initial state
  and the time points, and returns the array of states, one row for each time point, or
  raises. The cell is modelled by the calls it makes on the solver and on the plotting
  library, in program order, and by the exception that ends it, if any.
\<close>

definition time_E6 :: "real list" where
  "time_E6 = map (\<lambda>i. 20 * real i / 999) [0..<1000]"

type_synonym ode_rhs = "real list \<Rightarrow> real \<Rightarrow> error + real option list"

type_synonym ode_solver = "ode_rhs \<Rightarrow> real list \<Rightarrow> real list \<Rightarrow> error + real list list"

text \<open>The slice \<open>y[:,i]\<close> of a two-dimensional array, given as the list of its rows.\<close>

definition column :: "nat \<Rightarrow> real list list \<Rightarrow> error + real list" where
  "column i y =
     (if list_all (\<lambda>row. i < length row) y then Inr (map (\<lambda>row. row ! i) y)
      else Inl IndexError)"

datatype event =
  Odeint_call "real list" "real list"
| Subplot nat nat nat
| Plot "(real list \<times> real list \<times> string) list"

definition run_model :: "ode_solver \<Rightarrow> event list \<times> error option" where
  "run_model odeint =
     (case odeint (\<lambda>y t. rhs_E6 y t p_E6) y0 time_E6 of
        Inl e \<Rightarrow> ([Odeint_call y0 time_E6], Some e)
      | Inr y \<Rightarrow>
         (case column 0 y of Inl e \<Rightarrow> ([Odeint_call y0 time_E6], Some e) | Inr m \<Rightarrow>
         (case column 1 y of Inl e \<Rightarrow> ([Odeint_call y0 time_E6], Some e) | Inr h \<Rightarrow>
         (case column 2 y of Inl e \<Rightarrow> ([Odeint_call y0 time_E6], Some e) | Inr n \<Rightarrow>
         (case column 3 y of Inl e \<Rightarrow> ([Odeint_call y0 time_E6], Some e) | Inr V \<Rightarrow>
           ([Odeint_call y0 time_E6,
             Subplot 1 2 1,
             Plot [(time_E6, V, ''b'')],
             Subplot 1 2 2,
             Plot [(time_E6, m, ''r''), (time_E6, h, ''g''), (time_E6, n, ''m'')]], None))))))"


section \<open>The reaction-diffusion notebook\<close>

subsection \<open>The bistable reaction\<close>

text \<open>
  \<^verbatim>\<open>
  # The "reaction" that takes place is a positive (when 0.3 < u < 1.0) or negative (otherwise)
  # flux of species u (the magnitude of the flux is given as -u*(1-u)*(0.3-u))
  bistable_reaction = rxd.Rate(u, -u * r_param * (1 - u) * (0.3 - u))
  \<close>
  The rate of change of \<open>u\<close> by the reaction, as a function of the concentration and
  of the value of the parameter.
\<close>

definition bistable_reaction :: "real \<Rightarrow> real \<Rightarrow> real" where
  "bistable_reaction u r_param = - u * r_param * (1 - u) * (0.3 - u)"

subsection \<open>The widget callback\<close>

text \<open>
  \<^verbatim>\<open>
  def runneuron(rate_param, fraction_initial):
      my_start_time = time.time()
      r_param.initial = rate_param
      h.finitialize()
      for node in u.nodes:
          if node.x < fraction_initial: node.concentration = 1
      f,ax = plt.subplots(1,1)
      data_u = array(vec_u)
      ax.plot(dend.L*array(u.nodes.x), u.nodes.concentration, 'r')
      cols = ['r','m','b','c','g']
      for i in range(1, 5):
          h.continuerun(i * 25)
          ax.plot(dend.L*array(u.nodes.x), u.nodes.concentration, cols[i], label = str(i*25)+' ms')
      ...
  \<close>
  The callback works on the state of the NEURON simulator, which lives in the kernel
  from one call to the next. The simulator is not part of the notebook; its state is a
  type parameter \<open>'s\<close> and the operations that the callback uses are the fields of a
  record. The callback takes the state that earlier calls left behind and returns the
  curves it plots (abscissae and concentrations, in the order of the \<open>plot\<close> calls)
  with the state it leaves. The title of the figure, which shows the wall-clock time
  taken, and the array \<open>data_u\<close>, which is not used, are left out.
\<close>

record 's neuron =
  r_param_set_initial :: "real \<Rightarrow> 's \<Rightarrow> 's"
  h_finitialize :: "'s \<Rightarrow> 's"
  u_nodes_x :: "'s \<Rightarrow> real list"
  u_nodes_concentration :: "'s \<Rightarrow> real list"
  node_set_concentration :: "nat \<Rightarrow> real \<Rightarrow> 's \<Rightarrow> 's"
  h_continuerun :: "real \<Rightarrow> 's \<Rightarrow> 's"
  dend_L :: "'s \<Rightarrow> real"

type_synonym curve = "real list \<times> real list"

definition curve_of :: "'s neuron \<Rightarrow> 's \<Rightarrow> curve" where
  "curve_of sim s =
     (map (\<lambda>x. dend_L sim s * x) (u_nodes_x sim s), u_nodes_concentration sim s)"

text \<open>The loop over \<open>u.nodes\<close>: each node comes with its index and its position \<open>x\<close>.\<close>

fun set_step :: "'s neuron \<Rightarrow> real \<Rightarrow> (nat \<times> real) list \<Rightarrow> 's \<Rightarrow> 's" where
  "set_step sim fraction_initial [] s = s"
| "set_step sim fraction_initial ((i, x) # nodes) s =
     set_step sim fraction_initial nodes
       (if x < fraction_initial then node_set_concentration sim i 1 s else s)"

text \<open>The loop over \<open>range(1, 5)\<close>: run on to \<open>i * 25\<close> ms, then plot.\<close>

fun run_and_plot :: "'s neuron \<Rightarrow> nat list \<Rightarrow> 's \<Rightarrow> curve list \<times> 's" where
  "run_and_plot sim [] s = ([], s)"
| "run_and_plot sim (i # is) s =
     (let s' = h_continuerun sim (real i * 25) s;
          (curves, s'') = run_and_plot sim is s'
      in (curve_of sim s' # curves, s''))"

definition runneuron :: "'s neuron \<Rightarrow> real \<Rightarrow> real \<Rightarrow> 's \<Rightarrow> curve list \<times> 's" where
  "runneuron sim rate_param fraction_initial s0 =
     (let s1 = r_param_set_initial sim rate_param s0;
          s2 = h_finitialize sim s1;
          s3 = set_step sim fraction_initial (enumerate 0 (u_nodes_x sim s2)) s2;
          (curves, s4) = run_and_plot sim [1, 2, 3, 4] s3
      in (curve_of sim s3 # curves, s4))"


section \<open>The Hodgkin-Huxley equations as the notebook displays them\<close>

text \<open>
  The markdown cell above \<open>rhs\<close> in the E6 notebook displays the model that the function
  is to compute. The membrane equation is
  \<open>Cm dV/dt = -(g_Na m^3 h (V - E_Na) + g_K n^4 (V - E_K) + g_L (V - E_L) + I_app)\<close>
  and each gate \<open>x\<close> of \<open>m\<close>, \<open>h\<close>, \<open>n\<close> follows \<open>dx/dt = alpha_x (1 - x) - beta_x x\<close>.
  The cell does not display the six rate functions; they are written here as the plain
  real functions of the model, \<open>alpha_m = 0.1 (V + 40) / (1 - exp (-(V + 40) / 10))\<close> and
  so on. These definitions are what the function is compared with, and are not taken
  from its body.
\<close>

definition HH_dV_dt ::
  "real \<Rightarrow> real \<Rightarrow> real \<Rightarrow> real \<Rightarrow> real \<Rightarrow> real \<Rightarrow> real \<Rightarrow> real \<Rightarrow> real \<Rightarrow> real \<Rightarrow> real \<Rightarrow> real \<Rightarrow> real" where
  "HH_dV_dt m h n V i_app Cm E_Na E_K E_L g_Na g_K g_L =
     - (g_Na * m ^ 3 * h * (V - E_Na) + g_K * n ^ 4 * (V - E_K) + g_L * (V - E_L) + i_app) / Cm"

definition HH_alpha_m :: "real \<Rightarrow> real" where
  "HH_alpha_m V = 0.1 * (V + 40) / (1 - exp (- (V + 40) / 10))"

definition HH_beta_m :: "real \<Rightarrow> real" where
  "HH_beta_m V = 4 * exp (- (V + 65) / 18)"

definition HH_alpha_h :: "real \<Rightarrow> real" where
  "HH_alpha_h V = 0.07 * exp (- (V + 65) / 20)"

definition HH_beta_h :: "real \<Rightarrow> real" where
  "HH_beta_h V = 1 / (1 + exp (- (V + 35) / 10))"

definition HH_alpha_n :: "real \<Rightarrow> real" where
  "HH_alpha_n V = 0.01 * (V + 55) / (1 - exp (- (V + 55) / 10))"

definition HH_beta_n :: "real \<Rightarrow> real" where
  "HH_beta_n V = 0.125 * exp (- (V + 65) / 80)"

definition HH_gate :: "real \<Rightarrow> real \<Rightarrow> real \<Rightarrow> real" where
  "HH_gate alpha beta x = alpha * (1 - x) - beta * x"

subsection \<open>Trajectories of the gating subsystem\<close>

text \<open>
  The gating subsystem is the three gate equations driven by a membrane potential
  \<open>V t\<close>. On a trajectory on \<open>[0, T]\<close> the gates are continuous, and at every time
  when \<open>V t\<close> is neither \<open>-40\<close> nor \<open>-55\<close> the first three components that \<open>rhs\<close>
  returns are the derivatives of \<open>m\<close>, \<open>h\<close> and \<open>n\<close>. Nothing is asked at a time when
  \<open>V t\<close> is \<open>-40\<close> or \<open>-55\<close>, where \<open>rhs\<close> has no finite value for a rate, and nothing
  is asked of \<open>V\<close> itself: it may cross both values.
\<close>

definition gating_trajectory ::
  "(real \<Rightarrow> real) \<Rightarrow> (real \<Rightarrow> real) \<Rightarrow> (real \<Rightarrow> real) \<Rightarrow> (real \<Rightarrow> real) \<Rightarrow>
     (string \<rightharpoonup> real) \<Rightarrow> real \<Rightarrow> bool" where
  "gating_trajectory m h n V p T \<longleftrightarrow>
     continuous_on {0..T} m \<and> continuous_on {0..T} h \<and> continuous_on {0..T} n \<and>
     (\<forall>t. 0 \<le> t \<and> t \<le> T \<and> V t \<noteq> - 40 \<and> V t \<noteq> - 55 \<longrightarrow>
        (\<exists>dm dh dn dV.
           rhs_E6 [m t, h t, n t, V t] t p = Inr [Some dm, Some dh, Some dn, dV] \<and>
           (m has_real_derivative dm) (at t within {0..T}) \<and>
           (h has_real_derivative dh) (at t within {0..T}) \<and>
           (n has_real_derivative dn) (at t within {0..T})))"

definition in_unit_cube :: "real \<Rightarrow> real \<Rightarrow> real \<Rightarrow> bool" where
  "in_unit_cube m h n \<longleftrightarrow> 0 \<le> m \<and> m \<le> 1 \<and> 0 \<le> h \<and> h \<le> 1 \<and> 0 \<le> n \<and> n \<le> 1"


section \<open>Instances\<close>

text \<open>
  Concrete objects on which the hypotheses of the theorems below are met: gates
  relaxing at a clamped membrane potential, a small simulator with a hidden counter,
  and an explicit Euler solver.
\<close>

subsection \<open>A gate at a clamped potential\<close>

text \<open>
  With constant rates \<open>alpha\<close> and \<open>beta\<close> a gate relaxes exponentially from \<open>x0\<close> to
  its steady state \<open>alpha / (alpha + beta)\<close>.
\<close>

definition gate_inf :: "real \<Rightarrow> real \<Rightarrow> real" where
  "gate_inf alpha beta = alpha / (alpha + beta)"

definition relax :: "real \<Rightarrow> real \<Rightarrow> real \<Rightarrow> real \<Rightarrow> real" where
  "relax alpha beta x0 t =
     gate_inf alpha beta + (x0 - gate_inf alpha beta) * exp (- (alpha + beta) * t)"

text \<open>
  A membrane potential that is clamped at \<open>-80\<close> and takes the values \<open>-55\<close> and \<open>-40\<close>
  at one time each.
\<close>

definition V_touch :: "real \<Rightarrow> real" where
  "V_touch t = (if t = 1 / 3 then - 55 else if t = 2 / 3 then - 40 else - 80)"

subsection \<open>A small simulator\<close>

text \<open>
  Three nodes on a section of length 100, the reaction integrated by one explicit Euler
  step for each \<open>continuerun\<close>, no diffusion. \<open>finitialize\<close> resets the time, the
  parameter and the concentrations, and counts how often it has been called: the
  counter is a part of the state that carries the history past the reset.
\<close>

record toy_state =
  toy_t :: real
  toy_r_initial :: real
  toy_r :: real
  toy_u :: "real list"
  toy_runs :: nat

definition toy :: "toy_state neuron" where
  "toy = \<lparr>
     r_param_set_initial = (\<lambda>v s. s\<lparr>toy_r_initial := v\<rparr>),
     h_finitialize = (\<lambda>s. s\<lparr>toy_t := 0, toy_r := toy_r_initial s, toy_u := [0, 0, 0],
                              toy_runs := Suc (toy_runs s)\<rparr>),
     u_nodes_x = (\<lambda>s. [1 / 6, 1 / 2, 5 / 6]),
     u_nodes_concentration = toy_u,
     node_set_concentration = (\<lambda>i c s. s\<lparr>toy_u := (toy_u s)[i := c]\<rparr>),
     h_continuerun = (\<lambda>T s. s\<lparr>toy_t := T,
        toy_u := map (\<lambda>u. u + (T - toy_t s) * bistable_reaction u (toy_r s)) (toy_u s)\<rparr>),
     dend_L = (\<lambda>s. 100) \<rparr>"

definition toy_start :: toy_state where
  "toy_start = \<lparr>toy_t = 0, toy_r_initial = 0, toy_r = 0, toy_u = [0, 0, 0], toy_runs = 0\<rparr>"

definition toy_same :: "toy_state \<Rightarrow> toy_state \<Rightarrow> bool" where
  "toy_same a b \<longleftrightarrow> toy_t a = toy_t b \<and> toy_r a = toy_r b \<and> toy_u a = toy_u b"

subsection \<open>An explicit Euler solver\<close>

text \<open>
  One Euler step from each time point to the next; a derivative that is not a finite
  number leaves its component unchanged, and an exception of the right-hand side ends
  the run.
\<close>

fun euler :: ode_solver where
  "euler f y [] = Inr []"
| "euler f y [t] = Inr [y]"
| "euler f y (t # t' # ts) =
     bind_e (f y t) (\<lambda>ds.
     bind_e (euler f (map2 (\<lambda>yi d. case d of None \<Rightarrow> yi | Some d' \<Rightarrow> yi + (t' - t) * d') y ds)
               (t' # ts)) (\<lambda>rows.
     Inr (y # rows)))"


section \<open>Properties\<close>

lemma getitem_params:
  "getitem (params Cm E_Na E_K E_L gNa gK gL I_amp) ''Cm'' = Inr Cm"
  "getitem (params Cm E_Na E_K E_L gNa gK gL I_amp) ''E_Na'' = Inr E_Na"
  "getitem (params Cm E_Na E_K E_L gNa gK gL I_amp) ''E_K'' = Inr E_K"
  "getitem (params Cm E_Na E_K E_L gNa gK gL I_amp) ''E_L'' = Inr E_L"
  "getitem (params Cm E_Na E_K E_L gNa gK gL I_amp) ''gNa'' = Inr gNa"
  "getitem (params Cm E_Na E_K E_L gNa gK gL I_amp) ''gK'' = Inr gK"
  "getitem (params Cm E_Na E_K E_L gNa gK gL I_amp) ''gL'' = Inr gL"
  "getitem (params Cm E_Na E_K E_L gNa gK gL I_amp) ''I_amp'' = Inr I_amp"
  by (simp_all add: getitem_def params_def)

lemma bind_e_Inr [simp]: "bind_e (Inr v) f = f v"
  by (simp add: bind_e_def)

lemma bind_e_Inl [simp]: "bind_e (Inl e) f = Inl e"
  by (simp add: bind_e_def)

lemma rhs_E6_params:
  "rhs_E6 [m, h, n, V] t (params Cm E_Na E_K E_L gNa gK gL I_amp) =
     Inr [gate_dt (alpha_m V) (beta_m V) m,
          gate_dt (alpha_h V) (beta_h V) h,
          gate_dt (alpha_n V) (beta_n V) n,
          fdiv (- (I_Na gNa m h V E_Na + I_app t I_amp + I_K gK n V E_K)) Cm]"
  by (simp add: rhs_E6_def getitem_params)

text \<open>The exceptions of \<open>rhs\<close>, and a rate that is not a finite number.\<close>

lemma rhs_E2_raises:
  "rhs_E2 [1, 1] t k = Inl ValueError"
  "rhs_E2 [1, 1, 0, 0] t k = Inl ValueError"
  by (simp_all add: rhs_E2_def)

lemma rhs_E6_raises:
  "rhs_E6 [0, 1, 0] t p = Inl ValueError"
  "rhs_E6 [0, 1, 0, - 80, 0] t p = Inl ValueError"
  "rhs_E6 y0 t Map.empty = Inl (KeyError ''Cm'')"
  "rhs_E6 y0 t (p_E6(''gL'' := None)) = Inl (KeyError ''gL'')"
  by (simp_all add: rhs_E6_def y0_def getitem_def p_E6_def params_def)

lemma rhs_E6_not_finite:
  "rhs_E6 [m, h, n, - 40] t p_E6 =
     Inr [None, gate_dt (alpha_h (- 40)) (beta_h (- 40)) h,
          gate_dt (alpha_n (- 40)) (beta_n (- 40)) n,
          fdiv (- (I_Na 120 m h (- 40) 50 + I_app t 100 + I_K 40 n (- 40) (- 80))) 1]"
  by (simp add: p_E6_def rhs_E6_params alpha_m_def fdiv_def gate_dt_def)

subsection \<open>Inversion of \<open>rhs\<close> and the rates\<close>

lemma rhs_E6_InrD:
  assumes "rhs_E6 y t p = Inr ds"
  shows "\<exists>m h n V Cm E_Na E_K E_L gNa gK gL I_amp.
     y = [m, h, n, V] \<and>
     p ''Cm'' = Some Cm \<and> p ''E_Na'' = Some E_Na \<and> p ''E_K'' = Some E_K \<and>
     p ''E_L'' = Some E_L \<and> p ''gNa'' = Some gNa \<and> p ''gK'' = Some gK \<and>
     p ''gL'' = Some gL \<and> p ''I_amp'' = Some I_amp \<and>
     ds = [gate_dt (alpha_m V) (beta_m V) m,
           gate_dt (alpha_h V) (beta_h V) h,
           gate_dt (alpha_n V) (beta_n V) n,
           fdiv (- (I_Na gNa m h V E_Na + I_app t I_amp + I_K gK n V E_K)) Cm]"
  using assms
  by (auto simp: rhs_E6_def bind_e_def getitem_def Let_def split: list.splits option.splits)

lemma alpha_m_Some: "V \<noteq> - 40 \<Longrightarrow> alpha_m V = Some (HH_alpha_m V)"
  by (simp add: alpha_m_def fdiv_def HH_alpha_m_def)

lemma alpha_n_Some: "V \<noteq> - 55 \<Longrightarrow> alpha_n V = Some (HH_alpha_n V)"
  by (simp add: alpha_n_def fdiv_def HH_alpha_n_def)

lemma alpha_m_None: "alpha_m (- 40) = None"
  by (simp add: alpha_m_def fdiv_def)

lemma alpha_n_None: "alpha_n (- 55) = None"
  by (simp add: alpha_n_def fdiv_def)

lemma beta_h_Some: "beta_h V = Some (HH_beta_h V)"
proof -
  have "1 + exp (- (V + 35) / 10) > 0"
    by (simp add: add_pos_pos)
  then show ?thesis
    by (simp add: beta_h_def fdiv_def HH_beta_h_def)
qed

lemma beta_m_Some: "beta_m V = Some (HH_beta_m V)"
  by (simp add: beta_m_def HH_beta_m_def)

lemma alpha_h_Some: "alpha_h V = Some (HH_alpha_h V)"
  by (simp add: alpha_h_def HH_alpha_h_def)

lemma beta_n_Some: "beta_n V = Some (HH_beta_n V)"
  by (simp add: beta_n_def HH_beta_n_def)

lemma gate_dt_Some: "gate_dt (Some a) (Some b) x = Some (HH_gate a b x)"
  by (simp add: gate_dt_def HH_gate_def)

lemma gate_dt_None: "gate_dt None b x = None"
  by (simp add: gate_dt_def)

lemma ratio_pos:
  fixes x c :: real
  assumes "x \<noteq> 0" and "0 < c"
  shows "0 < c * x / (1 - exp (- x / 10))"
proof (cases "0 < x")
  case True
  then have "exp (- x / 10) < 1" by simp
  then have "0 < 1 - exp (- x / 10)" by simp
  moreover have "0 < c * x" using True assms by simp
  ultimately show ?thesis by (rule divide_pos_pos [rotated])
next
  case False
  then have x: "x < 0" using assms by simp
  then have "1 < exp (- x / 10)" by simp
  then have "1 - exp (- x / 10) < 0" by simp
  moreover have "c * x < 0" using x assms by (simp add: mult_pos_neg)
  ultimately show ?thesis by (rule divide_neg_neg [rotated])
qed

lemma HH_alpha_m_pos: "V \<noteq> - 40 \<Longrightarrow> 0 < HH_alpha_m V"
  unfolding HH_alpha_m_def by (rule ratio_pos) simp_all

lemma HH_alpha_n_pos: "V \<noteq> - 55 \<Longrightarrow> 0 < HH_alpha_n V"
  unfolding HH_alpha_n_def by (rule ratio_pos) simp_all

lemma HH_beta_m_pos: "0 < HH_beta_m V"
  by (simp add: HH_beta_m_def)

lemma HH_alpha_h_pos: "0 < HH_alpha_h V"
  by (simp add: HH_alpha_h_def)

lemma HH_beta_n_pos: "0 < HH_beta_n V"
  by (simp add: HH_beta_n_def)

lemma HH_beta_h_pos: "0 < HH_beta_h V"
  by (simp add: HH_beta_h_def add_pos_pos)

lemma gate_dt_eq_Some:
  "gate_dt alpha beta x = Some d \<longleftrightarrow> (\<exists>a b. alpha = Some a \<and> beta = Some b \<and> d = HH_gate a b x)"
  by (auto simp: gate_dt_def HH_gate_def split: option.splits)

lemma rhs_E6_gates:
  assumes "rhs_E6 [m, h, n, V] t p = Inr ds" and "V \<noteq> - 40" and "V \<noteq> - 55"
  shows "\<exists>dV. ds = [Some (HH_gate (HH_alpha_m V) (HH_beta_m V) m),
                 Some (HH_gate (HH_alpha_h V) (HH_beta_h V) h),
                 Some (HH_gate (HH_alpha_n V) (HH_beta_n V) n), dV]"
  using rhs_E6_InrD [OF assms(1)] assms(2,3)
  by (auto simp: alpha_m_Some alpha_n_Some beta_m_Some beta_h_Some alpha_h_Some beta_n_Some
      gate_dt_Some)

lemma rhs_E6_finite_gates:
  assumes "rhs_E6 [m, h, n, V] t p = Inr [Some dm, Some dh, Some dn, dV]"
  shows "V \<noteq> - 40 \<and> V \<noteq> - 55"
  using rhs_E6_InrD [OF assms]
  by (auto simp: gate_dt_def alpha_m_None alpha_n_None)

lemma rhs_E6_total:
  assumes "length y = 4" and "set rhs_keys \<subseteq> dom p"
  shows "\<exists>d0 d1 d2 d3. rhs_E6 y t p = Inr [d0, d1, d2, d3]"
proof -
  obtain m h n V where y: "y = [m, h, n, V]"
    using assms(1) by (auto simp: length_Suc_conv numeral_eq_Suc)
  have "''Cm'' \<in> dom p" "''E_Na'' \<in> dom p" "''E_K'' \<in> dom p" "''E_L'' \<in> dom p"
    "''gNa'' \<in> dom p" "''gK'' \<in> dom p" "''gL'' \<in> dom p" "''I_amp'' \<in> dom p"
    using assms(2) by (simp_all add: rhs_keys_def)
  then obtain Cm E_Na E_K E_L gNa gK gL I_amp where
    "p ''Cm'' = Some Cm" "p ''E_Na'' = Some E_Na" "p ''E_K'' = Some E_K" "p ''E_L'' = Some E_L"
    "p ''gNa'' = Some gNa" "p ''gK'' = Some gK" "p ''gL'' = Some gL" "p ''I_amp'' = Some I_amp"
    by blast
  then show ?thesis
    by (simp add: y rhs_E6_def getitem_def Let_def)
qed


subsection \<open>The mass-action right-hand side conserves mass\<close>

text \<open>
  C2: for every state \<open>(H2, O2, H2O)\<close>, every time and every rate constant, \<open>rhs\<close> of the
  E2 notebook returns three derivatives with \<open>dH2_dt = -2 * dH2O_dt\<close> and
  \<open>dO2_dt = - dH2O_dt\<close>, so that \<open>H2 + 2 * H2O\<close> and \<open>O2 + H2O\<close> have derivative zero
  along the vector field.
\<close>

theorem rhs_E2_mass_conserved:
  "\<exists>dH2_dt dO2_dt dH2O_dt.
     rhs_E2 [H2, O2, H2O] t k = Inr [dH2_dt, dO2_dt, dH2O_dt] \<and>
     dH2_dt = - 2 * dH2O_dt \<and> dO2_dt = - dH2O_dt \<and>
     dH2_dt + 2 * dH2O_dt = 0 \<and> dO2_dt + dH2O_dt = 0"
  by (simp add: rhs_E2_def Let_def)

subsection \<open>The membrane equation\<close>

text \<open>
  Whenever \<open>rhs\<close> returns with a finite fourth component, that component differs from
  the displayed membrane equation by the leak term \<open>g_L (V - E_L) / Cm\<close>.
\<close>

lemma rhs_E6_dV_dt_misses_leak:
  assumes "Cm \<noteq> 0"
  shows "map_sum id (\<lambda>ds. ds ! 3)
           (rhs_E6 [m, h, n, V] t (params Cm E_Na E_K E_L gNa gK gL I_amp)) =
         Inr (Some (HH_dV_dt m h n V (I_app t I_amp) Cm E_Na E_K E_L gNa gK gL
                    + gL * (V - E_L) / Cm))"
  using assms
  by (simp add: rhs_E6_params fdiv_def HH_dV_dt_def I_Na_def I_K_def field_simps)

text \<open>
  C1: the fourth component that \<open>rhs\<close> of the E6 notebook returns is the displayed
  membrane equation. At the notebook's own initial condition and parameters, at time 0,
  the function returns \<open>dV_dt = 0\<close> where the equation gives \<open>3 / 2\<close>: the leak current
  is left out of the sum.
\<close>

theorem rhs_E6_omits_leak:
  "map_sum id (\<lambda>ds. ds ! 3) (rhs_E6 y0 0 p_E6) = Inr (Some 0) \<and>
   HH_dV_dt m0 h0 n0 V0 (I_app 0 100) 1.0 50 (- 80) (- 75) 120 40 0.3 = 3 / 2"
  by (simp add: y0_def p_E6_def rhs_E6_params m0_def h0_def n0_def V0_def fdiv_def
      I_Na_def I_K_def I_app_def HH_dV_dt_def)

subsection \<open>The gating equations\<close>

text \<open>
  C3: for every state \<open>(m, h, n, V)\<close> with \<open>V\<close> distinct from \<open>-40\<close> and \<open>-55\<close>, the first
  three components that \<open>rhs\<close> of the E6 notebook returns are the gating equations
  \<open>alpha_x (1 - x) - beta_x x\<close> for \<open>x\<close> in \<open>m\<close>, \<open>h\<close>, \<open>n\<close> with the six rate functions
  of the model. With the eight parameters in the dictionary the function returns, and
  whatever the dictionary, a returned list starts with these three values.
\<close>

theorem rhs_E6_gating_equations:
  assumes "V \<noteq> - 40" and "V \<noteq> - 55"
  shows "(\<exists>dV. rhs_E6 [m, h, n, V] t (params Cm E_Na E_K E_L gNa gK gL I_amp) =
            Inr [Some (HH_gate (HH_alpha_m V) (HH_beta_m V) m),
                 Some (HH_gate (HH_alpha_h V) (HH_beta_h V) h),
                 Some (HH_gate (HH_alpha_n V) (HH_beta_n V) n), dV]) \<and>
         (\<forall>ds. rhs_E6 [m, h, n, V] t p = Inr ds \<longrightarrow>
            take 3 ds = [Some (HH_gate (HH_alpha_m V) (HH_beta_m V) m),
                         Some (HH_gate (HH_alpha_h V) (HH_beta_h V) h),
                         Some (HH_gate (HH_alpha_n V) (HH_beta_n V) n)])"
proof (intro conjI allI impI)
  show "\<exists>dV. rhs_E6 [m, h, n, V] t (params Cm E_Na E_K E_L gNa gK gL I_amp) =
            Inr [Some (HH_gate (HH_alpha_m V) (HH_beta_m V) m),
                 Some (HH_gate (HH_alpha_h V) (HH_beta_h V) h),
                 Some (HH_gate (HH_alpha_n V) (HH_beta_n V) n), dV]"
    using assms
    by (simp add: rhs_E6_params alpha_m_Some alpha_n_Some beta_m_Some beta_h_Some alpha_h_Some
        beta_n_Some gate_dt_Some)
next
  fix ds
  assume "rhs_E6 [m, h, n, V] t p = Inr ds"
  from rhs_E6_gates [OF this assms]
  show "take 3 ds = [Some (HH_gate (HH_alpha_m V) (HH_beta_m V) m),
                         Some (HH_gate (HH_alpha_h V) (HH_beta_h V) h),
                         Some (HH_gate (HH_alpha_n V) (HH_beta_n V) n)]"
    by (auto simp: numeral_eq_Suc)
qed

theorem rhs_E6_gating_equations_witness:
  "(- 80 :: real) \<noteq> - 40 \<and> (- 80 :: real) \<noteq> - 55 \<and>
   (\<exists>dV. rhs_E6 y0 0 p_E6 =
      Inr [Some (HH_gate (HH_alpha_m (- 80)) (HH_beta_m (- 80)) 0),
           Some (HH_gate (HH_alpha_h (- 80)) (HH_beta_h (- 80)) 1),
           Some (HH_gate (HH_alpha_n (- 80)) (HH_beta_n (- 80)) 0), dV])"
proof -
  have a: "(- 80 :: real) \<noteq> - 40" and b: "(- 80 :: real) \<noteq> - 55" by simp_all
  from rhs_E6_gating_equations [OF a b, of 0 1 0 0 "1.0" 50 "- 80" "- 75" 120 40 "0.3" 100]
  show ?thesis
    by (simp add: y0_def m0_def h0_def n0_def V0_def p_E6_def)
qed

subsection \<open>One derivative for each state\<close>

text \<open>
  C4: each right-hand side returns a list of derivatives as long as its state vector.
  \<open>rhs\<close> of the E2 notebook returns three derivatives for every state of three
  components, and \<open>rhs\<close> of the E6 notebook four for every state of four components
  and every dictionary that holds the eight parameters; neither ever returns a list of
  another length than its state.
\<close>

theorem rhs_one_derivative_per_state:
  "(length y = 3 \<longrightarrow> (\<exists>ds. rhs_E2 y t k = Inr ds \<and> length ds = length y)) \<and>
   (length z = 4 \<and> set rhs_keys \<subseteq> dom p \<longrightarrow>
      (\<exists>ds. rhs_E6 z t p = Inr ds \<and> length ds = length z)) \<and>
   (\<forall>ds. rhs_E2 y t k = Inr ds \<longrightarrow> length ds = length y) \<and>
   (\<forall>ds. rhs_E6 z t p = Inr ds \<longrightarrow> length ds = length z)"
proof (intro conjI allI impI)
  assume "length y = 3"
  then obtain a b c where "y = [a, b, c]"
    by (auto simp: length_Suc_conv numeral_eq_Suc)
  then show "\<exists>ds. rhs_E2 y t k = Inr ds \<and> length ds = length y"
    by (simp add: rhs_E2_def Let_def)
next
  assume "length z = 4 \<and> set rhs_keys \<subseteq> dom p"
  then show "\<exists>ds. rhs_E6 z t p = Inr ds \<and> length ds = length z"
    using rhs_E6_total [of z p t] by auto
next
  fix ds
  assume "rhs_E2 y t k = Inr ds"
  then show "length ds = length y"
    by (auto simp: rhs_E2_def Let_def split: list.splits)
next
  fix ds
  assume "rhs_E6 z t p = Inr ds"
  from rhs_E6_InrD [OF this] show "length ds = length z"
    by auto
qed

theorem rhs_one_derivative_per_state_witness:
  "length [1, 1, 0 :: real] = 3 \<and>
   (\<exists>ds. rhs_E2 [1, 1, 0] 0 10 = Inr ds \<and> length ds = length [1, 1, 0 :: real]) \<and>
   length y0 = 4 \<and> set rhs_keys \<subseteq> dom p_E6 \<and>
   (\<exists>ds. rhs_E6 y0 0 p_E6 = Inr ds \<and> length ds = length y0)"
proof -
  have a: "length [1, 1, 0 :: real] = 3" by simp
  have b: "length y0 = 4 \<and> set rhs_keys \<subseteq> dom p_E6"
    by (simp add: y0_def rhs_keys_def p_E6_def params_def)
  from rhs_one_derivative_per_state [of "[1, 1, 0]" 0 10 y0 p_E6] a b
  show ?thesis by blast
qed

subsection \<open>The window of the applied current\<close>

text \<open>
  C8: the applied current in \<open>rhs\<close> of the E6 notebook is \<open>- I_amp\<close> for \<open>2 < t < 4\<close>,
  with strict inequalities, and \<open>0\<close> at every other time, in particular at \<open>t = 2\<close> and
  at \<open>t = 4\<close>; this is the value that enters the fourth component.
\<close>

theorem I_app_open_window:
  "(2 < t \<and> t < 4 \<longrightarrow> I_app t I_amp = - I_amp) \<and>
   (\<not> (2 < t \<and> t < 4) \<longrightarrow> I_app t I_amp = 0) \<and>
   I_app 2 I_amp = 0 \<and> I_app 4 I_amp = 0 \<and>
   (I_amp \<noteq> 0 \<longrightarrow> (I_app t I_amp = - I_amp \<longleftrightarrow> 2 < t \<and> t < 4)) \<and>
   map_sum id (\<lambda>ds. ds ! 3) (rhs_E6 [m, h, n, V] t (params Cm E_Na E_K E_L gNa gK gL I_amp)) =
     Inr (fdiv (- (I_Na gNa m h V E_Na + (if 2 < t \<and> t < 4 then - I_amp else 0)
                   + I_K gK n V E_K)) Cm)"
  by (simp add: I_app_def rhs_E6_params)

theorem I_app_open_window_witness:
  "(2 :: real) < 3 \<and> (3 :: real) < 4 \<and> I_app 3 100 = - 100 \<and>
   \<not> ((2 :: real) < 5 \<and> (5 :: real) < 4) \<and> I_app 5 100 = 0 \<and>
   I_app 2 100 = 0 \<and> I_app 4 100 = 0 \<and> (100 :: real) \<noteq> 0"
  using I_app_open_window [of 3 100] I_app_open_window [of 5 100]
  by simp

subsection \<open>The unit cube of the gates\<close>

text \<open>
  A continuous function that follows a gate equation with positive rates at all but
  finitely many times of \<open>[0, T]\<close> and starts in \<open>[0, 1]\<close> stays there. Were it negative
  somewhere, it would take its least value on the interval at a time \<open>s\<close> after 0 where
  it is negative; on a stretch just before \<open>s\<close> it is negative and follows the equation,
  so its derivative is positive there and, by the mean value theorem, it is smaller
  still at the start of the stretch.
\<close>

lemma gate_lower:
  fixes x a b :: "real \<Rightarrow> real"
  assumes cont: "continuous_on {0..T} x"
    and fin: "finite F"
    and der: "\<And>s. 0 \<le> s \<Longrightarrow> s \<le> T \<Longrightarrow> s \<notin> F \<Longrightarrow>
      (x has_real_derivative (a s * (1 - x s) - b s * x s)) (at s within {0..T})"
    and pos: "\<And>s. 0 \<le> s \<Longrightarrow> s \<le> T \<Longrightarrow> s \<notin> F \<Longrightarrow> 0 < a s \<and> 0 < b s"
    and init: "0 \<le> x 0"
    and t: "0 \<le> t" "t \<le> T"
  shows "0 \<le> x t"
proof (rule ccontr)
  assume "\<not> 0 \<le> x t"
  then have neg: "x t < 0" by simp
  have "continuous_on {0..t} x"
    using cont t by (auto intro: continuous_on_subset)
  moreover have "{0..t} \<noteq> {}" using t by simp
  ultimately obtain s where s: "s \<in> {0..t}" and smin: "\<forall>u\<in>{0..t}. x s \<le> x u"
    using continuous_attains_inf [of "{0..t}" x] by auto
  have xs: "x s < 0" using smin t neg by force
  then have "s \<noteq> 0" using init by auto
  then have s0: "0 < s" and sT: "s \<le> T" using s t by auto
  \<comment> \<open>near \<open>s\<close> the function is negative\<close>
  have "(x \<longlongrightarrow> x s) (at s within {0..T})"
    using cont s0 sT by (auto simp: continuous_on_def)
  then have "eventually (\<lambda>u. x u < 0) (at s within {0..T})"
    using xs by (rule order_tendstoD)
  then obtain d2 where d2: "0 < d2" and near: "\<forall>u\<in>{0..T}. u \<noteq> s \<and> dist u s < d2 \<longrightarrow> x u < 0"
    unfolding eventually_at by blast
  \<comment> \<open>and a stretch just before \<open>s\<close> is free of exceptional times\<close>
  obtain d1 where d1: "0 < d1" and free: "\<forall>u\<in>F. u < s \<longrightarrow> u \<le> s - d1"
  proof (cases "{u \<in> F. u < s} = {}")
    case True
    then have "\<forall>u\<in>F. u < s \<longrightarrow> u \<le> s - 1" by auto
    then show ?thesis using that [of 1] by simp
  next
    case False
    define M where "M = Max {u \<in> F. u < s}"
    have finF: "finite {u \<in> F. u < s}" using fin by simp
    then have "M \<in> {u \<in> F. u < s}" unfolding M_def using False by (rule Max_in)
    then have "M < s" by simp
    moreover have "\<forall>u\<in>F. u < s \<longrightarrow> u \<le> s - (s - M)"
      using Max_ge [OF finF] by (auto simp: M_def)
    ultimately show ?thesis using that [of "s - M"] by simp
  qed
  define d where "d = min d1 (min (d2 / 2) s)"
  define c where "c = s - d"
  have d: "0 < d" "d \<le> d1" "d < d2" "d \<le> s"
    using d1 d2 s0 by (auto simp: d_def min_def)
  then have c: "0 \<le> c" "c < s" by (simp_all add: c_def)
  have negcs: "x u < 0" if "c \<le> u" "u \<le> s" for u
  proof (cases "u = s")
    case True
    then show ?thesis using xs by simp
  next
    case False
    have "dist u s < d2" using that d by (simp add: dist_real_def c_def)
    moreover have "u \<in> {0..T}" using that c sT by simp
    ultimately show ?thesis using near False by blast
  qed
  have notF: "u \<notin> F" if "c < u" "u < s" for u
    using free that d by (force simp: c_def)
  have derat: "(x has_real_derivative (a u * (1 - x u) - b u * x u)) (at u)"
    if "c < u" "u < s" for u
  proof -
    have u: "0 < u" "u < T" using that c sT by simp_all
    from der [of u] u notF [OF that]
    have "(x has_real_derivative (a u * (1 - x u) - b u * x u)) (at u within {0..T})"
      by simp
    then show ?thesis using u by (simp add: at_within_Icc_at)
  qed
  have "continuous_on {c..s} x"
    using cont c sT by (auto intro: continuous_on_subset)
  moreover have "x differentiable (at u)" if "c < u" "u < s" for u
    using derat [OF that] by (auto simp: real_differentiable_def)
  ultimately obtain l z where z: "c < z" "z < s" and dz: "DERIV x z :> l"
    and eq: "x s - x c = (s - c) * l"
    using MVT [OF c(2), of x] by blast
  have l: "l = a z * (1 - x z) - b z * x z"
    using DERIV_unique [OF dz derat [OF z]] .
  have zF: "z \<notin> F" using notF z by simp
  have ab: "0 < a z" "0 < b z" using pos [of z] z c sT zF by auto
  have xz: "x z < 0" using negcs z by simp
  have "0 < a z * (1 - x z)" using ab xz by simp
  moreover have "0 < - (b z * x z)" using ab xz by (simp add: mult_pos_neg)
  ultimately have "0 < l" unfolding l by linarith
  then have "0 < (s - c) * l" using c by simp
  then have "x c < x s" using eq by simp
  moreover have "x s \<le> x c" using smin c s by auto
  ultimately show False by simp
qed

lemma gate_upper:
  fixes x a b :: "real \<Rightarrow> real"
  assumes cont: "continuous_on {0..T} x"
    and fin: "finite F"
    and der: "\<And>s. 0 \<le> s \<Longrightarrow> s \<le> T \<Longrightarrow> s \<notin> F \<Longrightarrow>
      (x has_real_derivative (a s * (1 - x s) - b s * x s)) (at s within {0..T})"
    and pos: "\<And>s. 0 \<le> s \<Longrightarrow> s \<le> T \<Longrightarrow> s \<notin> F \<Longrightarrow> 0 < a s \<and> 0 < b s"
    and init: "x 0 \<le> 1"
    and t: "0 \<le> t" "t \<le> T"
  shows "x t \<le> 1"
proof -
  define z where "z = (\<lambda>s. 1 - x s)"
  have contz: "continuous_on {0..T} z"
    unfolding z_def by (intro continuous_intros cont)
  have der': "(z has_real_derivative (b s * (1 - z s) - a s * z s)) (at s within {0..T})"
    if s: "0 \<le> s" "s \<le> T" "s \<notin> F" for s
  proof -
    have "((\<lambda>s. 1 - x s) has_real_derivative (0 - (a s * (1 - x s) - b s * x s)))
            (at s within {0..T})"
      by (rule DERIV_diff [OF DERIV_const der [OF s]])
    then show ?thesis
      by (simp add: z_def algebra_simps)
  qed
  have pos': "0 < b s \<and> 0 < a s" if "0 \<le> s" "s \<le> T" "s \<notin> F" for s
    using pos [OF that] by simp
  have "0 \<le> z 0" using init by (simp add: z_def)
  from gate_lower [of T z F b a t, OF contz fin der' pos' this t]
  show ?thesis by (simp add: z_def)
qed


lemma gating_trajectoryD:
  assumes "gating_trajectory m h n V p T" and "0 \<le> t" and "t \<le> T"
    and V: "V t \<noteq> - 40" "V t \<noteq> - 55"
  shows
    "(m has_real_derivative HH_gate (HH_alpha_m (V t)) (HH_beta_m (V t)) (m t)) (at t within {0..T})"
    "(h has_real_derivative HH_gate (HH_alpha_h (V t)) (HH_beta_h (V t)) (h t)) (at t within {0..T})"
    "(n has_real_derivative HH_gate (HH_alpha_n (V t)) (HH_beta_n (V t)) (n t)) (at t within {0..T})"
proof -
  from assms obtain dm dh dn dV where
    r: "rhs_E6 [m t, h t, n t, V t] t p = Inr [Some dm, Some dh, Some dn, dV]" and
    d: "(m has_real_derivative dm) (at t within {0..T})"
       "(h has_real_derivative dh) (at t within {0..T})"
       "(n has_real_derivative dn) (at t within {0..T})"
    unfolding gating_trajectory_def by blast
  from rhs_E6_gates [OF r V] have
    "dm = HH_gate (HH_alpha_m (V t)) (HH_beta_m (V t)) (m t)"
    "dh = HH_gate (HH_alpha_h (V t)) (HH_beta_h (V t)) (h t)"
    "dn = HH_gate (HH_alpha_n (V t)) (HH_beta_n (V t)) (n t)"
    by simp_all
  with d show
    "(m has_real_derivative HH_gate (HH_alpha_m (V t)) (HH_beta_m (V t)) (m t)) (at t within {0..T})"
    "(h has_real_derivative HH_gate (HH_alpha_h (V t)) (HH_beta_h (V t)) (h t)) (at t within {0..T})"
    "(n has_real_derivative HH_gate (HH_alpha_n (V t)) (HH_beta_n (V t)) (n t)) (at t within {0..T})"
    by simp_all
qed

lemma gating_trajectory_in_cube:
  assumes traj: "gating_trajectory m h n V p T"
    and fin: "finite {s. 0 \<le> s \<and> s \<le> T \<and> (V s = - 40 \<or> V s = - 55)}"
    and init: "in_unit_cube (m 0) (h 0) (n 0)"
    and s: "0 \<le> s" "s \<le> T"
  shows "in_unit_cube (m s) (h s) (n s)"
proof -
  let ?F = "{s. 0 \<le> s \<and> s \<le> T \<and> (V s = - 40 \<or> V s = - 55)}"
  have V: "V t \<noteq> - 40" "V t \<noteq> - 55" if "0 \<le> t" "t \<le> T" "t \<notin> ?F" for t
    using that by auto
  have cont: "continuous_on {0..T} m" "continuous_on {0..T} h" "continuous_on {0..T} n"
    using traj by (simp_all add: gating_trajectory_def)
  have i: "0 \<le> m 0" "m 0 \<le> 1" "0 \<le> h 0" "h 0 \<le> 1" "0 \<le> n 0" "n 0 \<le> 1"
    using init by (simp_all add: in_unit_cube_def)
  have der_m: "(m has_real_derivative
      (HH_alpha_m (V t) * (1 - m t) - HH_beta_m (V t) * m t)) (at t within {0..T})"
    if "0 \<le> t" "t \<le> T" "t \<notin> ?F" for t
    using gating_trajectoryD(1) [OF traj that(1,2) V [OF that]] by (simp add: HH_gate_def)
  have pos_m: "0 < HH_alpha_m (V t) \<and> 0 < HH_beta_m (V t)"
    if "0 \<le> t" "t \<le> T" "t \<notin> ?F" for t
    using V [OF that] by (simp add: HH_alpha_m_pos HH_beta_m_pos)
  have m: "0 \<le> m s \<and> m s \<le> 1"
    using gate_lower [of T m ?F "\<lambda>t. HH_alpha_m (V t)" "\<lambda>t. HH_beta_m (V t)" s,
            OF cont(1) fin der_m pos_m i(1) s]
      gate_upper [of T m ?F "\<lambda>t. HH_alpha_m (V t)" "\<lambda>t. HH_beta_m (V t)" s,
            OF cont(1) fin der_m pos_m i(2) s]
    by simp
  have der_h: "(h has_real_derivative
      (HH_alpha_h (V t) * (1 - h t) - HH_beta_h (V t) * h t)) (at t within {0..T})"
    if "0 \<le> t" "t \<le> T" "t \<notin> ?F" for t
    using gating_trajectoryD(2) [OF traj that(1,2) V [OF that]] by (simp add: HH_gate_def)
  have pos_h: "0 < HH_alpha_h (V t) \<and> 0 < HH_beta_h (V t)"
    if "0 \<le> t" "t \<le> T" "t \<notin> ?F" for t
    using V [OF that] by (simp add: HH_alpha_h_pos HH_beta_h_pos)
  have h: "0 \<le> h s \<and> h s \<le> 1"
    using gate_lower [of T h ?F "\<lambda>t. HH_alpha_h (V t)" "\<lambda>t. HH_beta_h (V t)" s,
            OF cont(2) fin der_h pos_h i(3) s]
      gate_upper [of T h ?F "\<lambda>t. HH_alpha_h (V t)" "\<lambda>t. HH_beta_h (V t)" s,
            OF cont(2) fin der_h pos_h i(4) s]
    by simp
  have der_n: "(n has_real_derivative
      (HH_alpha_n (V t) * (1 - n t) - HH_beta_n (V t) * n t)) (at t within {0..T})"
    if "0 \<le> t" "t \<le> T" "t \<notin> ?F" for t
    using gating_trajectoryD(3) [OF traj that(1,2) V [OF that]] by (simp add: HH_gate_def)
  have pos_n: "0 < HH_alpha_n (V t) \<and> 0 < HH_beta_n (V t)"
    if "0 \<le> t" "t \<le> T" "t \<notin> ?F" for t
    using V [OF that] by (simp add: HH_alpha_n_pos HH_beta_n_pos)
  have n: "0 \<le> n s \<and> n s \<le> 1"
    using gate_lower [of T n ?F "\<lambda>t. HH_alpha_n (V t)" "\<lambda>t. HH_beta_n (V t)" s,
            OF cont(3) fin der_n pos_n i(5) s]
      gate_upper [of T n ?F "\<lambda>t. HH_alpha_n (V t)" "\<lambda>t. HH_beta_n (V t)" s,
            OF cont(3) fin der_n pos_n i(6) s]
    by simp
  from m h n show ?thesis by (simp add: in_unit_cube_def)
qed

lemma rates_positive:
  assumes "V \<noteq> - 40" and "V \<noteq> - 55"
  shows "\<exists>am bm ah bh an bn.
     alpha_m V = Some am \<and> beta_m V = Some bm \<and> alpha_h V = Some ah \<and>
     beta_h V = Some bh \<and> alpha_n V = Some an \<and> beta_n V = Some bn \<and>
     0 < am \<and> 0 < bm \<and> 0 < ah \<and> 0 < bh \<and> 0 < an \<and> 0 < bn"
  using assms
  by (simp add: alpha_m_Some alpha_n_Some beta_m_Some beta_h_Some alpha_h_Some beta_n_Some
      HH_alpha_m_pos HH_alpha_n_pos HH_beta_m_pos HH_beta_h_pos HH_alpha_h_pos HH_beta_n_pos)

lemma HH_gate_faces:
  assumes "0 < a" and "0 < b"
  shows "HH_gate a b 0 = a" "HH_gate a b 1 = - b"
  by (simp_all add: HH_gate_def)

lemma faces_inward:
  assumes V: "V \<noteq> - 40" "V \<noteq> - 55" and r: "rhs_E6 [m, h, n, V] t p = Inr ds"
  shows "\<exists>dm dh dn. take 3 ds = [Some dm, Some dh, Some dn] \<and>
     (m = 0 \<longrightarrow> 0 \<le> dm) \<and> (m = 1 \<longrightarrow> dm \<le> 0) \<and>
     (h = 0 \<longrightarrow> 0 \<le> dh) \<and> (h = 1 \<longrightarrow> dh \<le> 0) \<and>
     (n = 0 \<longrightarrow> 0 \<le> dn) \<and> (n = 1 \<longrightarrow> dn \<le> 0)"
proof -
  from rhs_E6_gates [OF r V] obtain dV where
    ds: "ds = [Some (HH_gate (HH_alpha_m V) (HH_beta_m V) m),
               Some (HH_gate (HH_alpha_h V) (HH_beta_h V) h),
               Some (HH_gate (HH_alpha_n V) (HH_beta_n V) n), dV]" by blast
  have "0 \<le> HH_alpha_m V" "0 \<le> HH_beta_m V" "0 \<le> HH_alpha_h V" "0 \<le> HH_beta_h V"
    "0 \<le> HH_alpha_n V" "0 \<le> HH_beta_n V"
    using V HH_alpha_m_pos [of V] HH_alpha_n_pos [of V] HH_beta_m_pos [of V]
      HH_beta_h_pos [of V] HH_alpha_h_pos [of V] HH_beta_n_pos [of V]
    by simp_all
  then show ?thesis
    by (simp add: ds numeral_eq_Suc HH_gate_def)
qed

lemma relax_0: "relax a b x0 0 = x0"
  by (simp add: relax_def)

lemma relax_deriv:
  assumes "0 < a" and "0 < b"
  shows "(relax a b x0 has_real_derivative HH_gate a b (relax a b x0 t)) (at t within S)"
proof -
  have ab: "a + b \<noteq> 0" using assms by simp
  have g: "(a + b) * gate_inf a b = a"
    using ab by (simp add: gate_inf_def)
  have "((\<lambda>t. gate_inf a b + (x0 - gate_inf a b) * exp (- (a + b) * t)) has_real_derivative
          (x0 - gate_inf a b) * (exp (- (a + b) * t) * (- (a + b)))) (at t within S)"
    by (auto intro!: derivative_eq_intros)
  moreover have "(x0 - gate_inf a b) * (exp (- (a + b) * t) * (- (a + b))) =
      HH_gate a b (relax a b x0 t)"
  proof -
    have "HH_gate a b (relax a b x0 t) =
        a - (a + b) * gate_inf a b - (a + b) * (x0 - gate_inf a b) * exp (- (a + b) * t)"
      by (simp add: HH_gate_def relax_def algebra_simps)
    also have "\<dots> = - (a + b) * (x0 - gate_inf a b) * exp (- (a + b) * t)"
      by (simp only: g)
    finally show ?thesis by (simp add: algebra_simps)
  qed
  moreover have "relax a b x0 = (\<lambda>t. gate_inf a b + (x0 - gate_inf a b) * exp (- (a + b) * t))"
    by (rule ext) (simp add: relax_def)
  ultimately show ?thesis by simp
qed


lemma relax_continuous: "continuous_on S (relax a b x0)"
proof -
  have "relax a b x0 = (\<lambda>t. gate_inf a b + (x0 - gate_inf a b) * exp (- (a + b) * t))"
    by (rule ext) (simp add: relax_def)
  then show ?thesis by (simp add: continuous_intros)
qed

lemma V_touch_cases: "V_touch t = - 55 \<or> V_touch t = - 40 \<or> V_touch t = - 80"
  by (simp add: V_touch_def)

lemma touch_trajectory:
  "gating_trajectory
     (relax (HH_alpha_m (- 80)) (HH_beta_m (- 80)) x)
     (relax (HH_alpha_h (- 80)) (HH_beta_h (- 80)) y)
     (relax (HH_alpha_n (- 80)) (HH_beta_n (- 80)) z)
     V_touch (params Cm E_Na E_K E_L gNa gK gL I_amp) T"
  unfolding gating_trajectory_def
proof (intro conjI allI impI)
  fix t :: real
  assume "0 \<le> t \<and> t \<le> T \<and> V_touch t \<noteq> - 40 \<and> V_touch t \<noteq> - 55"
  then have V: "V_touch t = - 80" using V_touch_cases [of t] by auto
  show "\<exists>dm dh dn dV.
          rhs_E6 [relax (HH_alpha_m (- 80)) (HH_beta_m (- 80)) x t,
              relax (HH_alpha_h (- 80)) (HH_beta_h (- 80)) y t,
              relax (HH_alpha_n (- 80)) (HH_beta_n (- 80)) z t, V_touch t] t
            (params Cm E_Na E_K E_L gNa gK gL I_amp) = Inr [Some dm, Some dh, Some dn, dV] \<and>
          (relax (HH_alpha_m (- 80)) (HH_beta_m (- 80)) x has_real_derivative dm) (at t within {0..T}) \<and>
          (relax (HH_alpha_h (- 80)) (HH_beta_h (- 80)) y has_real_derivative dh) (at t within {0..T}) \<and>
          (relax (HH_alpha_n (- 80)) (HH_beta_n (- 80)) z has_real_derivative dn) (at t within {0..T})"
    unfolding V
    by (simp add: rhs_E6_params alpha_m_Some alpha_n_Some beta_m_Some beta_h_Some alpha_h_Some
        beta_n_Some gate_dt_Some relax_deriv HH_alpha_m_pos HH_alpha_n_pos HH_beta_m_pos
        HH_beta_h_pos HH_alpha_h_pos HH_beta_n_pos)
qed (rule relax_continuous)+

lemma V_touch_finite: "finite {s. 0 \<le> s \<and> s \<le> T \<and> (V_touch s = - 40 \<or> V_touch s = - 55)}"
proof (rule finite_subset)
  show "{s. 0 \<le> s \<and> s \<le> T \<and> (V_touch s = - 40 \<or> V_touch s = - 55)} \<subseteq> {1 / 3, 2 / 3}"
    by (auto simp: V_touch_def split: if_splits)
qed simp

text \<open>
  C5: for every membrane potential other than \<open>-40\<close> and \<open>-55\<close> the six transition
  rates computed in \<open>rhs\<close> of the E6 notebook are finite and strictly positive, and each
  gate derivative that \<open>rhs\<close> returns is nonnegative where its gate is 0 and nonpositive
  where its gate is 1. The unit cube \<open>0 \<le> m, h, n \<le> 1\<close> is forward-invariant for the
  gating subsystem: a trajectory with continuous gates whose derivatives are the values
  that \<open>rhs\<close> returns at every time of \<open>[0, T]\<close> when \<open>V\<close> is neither \<open>-40\<close> nor \<open>-55\<close>,
  with \<open>V\<close> at one of these two values at finitely many times only, and that starts in
  the cube, stays in the cube on \<open>[0, T]\<close>.
\<close>

theorem gating_unit_cube_forward_invariant:
  "(V \<noteq> - 40 \<and> V \<noteq> - 55 \<longrightarrow>
      (\<exists>am bm ah bh an bn.
         alpha_m V = Some am \<and> beta_m V = Some bm \<and> alpha_h V = Some ah \<and>
         beta_h V = Some bh \<and> alpha_n V = Some an \<and> beta_n V = Some bn \<and>
         0 < am \<and> 0 < bm \<and> 0 < ah \<and> 0 < bh \<and> 0 < an \<and> 0 < bn) \<and>
      (\<forall>ds. rhs_E6 [m, h, n, V] t p = Inr ds \<longrightarrow>
         (\<exists>dm dh dn. take 3 ds = [Some dm, Some dh, Some dn] \<and>
            (m = 0 \<longrightarrow> 0 \<le> dm) \<and> (m = 1 \<longrightarrow> dm \<le> 0) \<and>
            (h = 0 \<longrightarrow> 0 \<le> dh) \<and> (h = 1 \<longrightarrow> dh \<le> 0) \<and>
            (n = 0 \<longrightarrow> 0 \<le> dn) \<and> (n = 1 \<longrightarrow> dn \<le> 0)))) \<and>
   (gating_trajectory mt ht nt Vt q T \<and>
    finite {s. 0 \<le> s \<and> s \<le> T \<and> (Vt s = - 40 \<or> Vt s = - 55)} \<and>
    in_unit_cube (mt 0) (ht 0) (nt 0) \<longrightarrow>
      (\<forall>s. 0 \<le> s \<and> s \<le> T \<longrightarrow> in_unit_cube (mt s) (ht s) (nt s)))"
proof (intro conjI impI allI)
  assume "V \<noteq> - 40 \<and> V \<noteq> - 55"
  then show "\<exists>am bm ah bh an bn.
         alpha_m V = Some am \<and> beta_m V = Some bm \<and> alpha_h V = Some ah \<and>
         beta_h V = Some bh \<and> alpha_n V = Some an \<and> beta_n V = Some bn \<and>
         0 < am \<and> 0 < bm \<and> 0 < ah \<and> 0 < bh \<and> 0 < an \<and> 0 < bn"
    using rates_positive [of V] by simp
next
  fix ds
  assume "V \<noteq> - 40 \<and> V \<noteq> - 55" and "rhs_E6 [m, h, n, V] t p = Inr ds"
  then show "\<exists>dm dh dn. take 3 ds = [Some dm, Some dh, Some dn] \<and>
            (m = 0 \<longrightarrow> 0 \<le> dm) \<and> (m = 1 \<longrightarrow> dm \<le> 0) \<and>
            (h = 0 \<longrightarrow> 0 \<le> dh) \<and> (h = 1 \<longrightarrow> dh \<le> 0) \<and>
            (n = 0 \<longrightarrow> 0 \<le> dn) \<and> (n = 1 \<longrightarrow> dn \<le> 0)"
    using faces_inward [of V m h n t p ds] by simp
next
  fix s
  assume "gating_trajectory mt ht nt Vt q T \<and>
    finite {s. 0 \<le> s \<and> s \<le> T \<and> (Vt s = - 40 \<or> Vt s = - 55)} \<and>
    in_unit_cube (mt 0) (ht 0) (nt 0)"
    and "0 \<le> s \<and> s \<le> T"
  then show "in_unit_cube (mt s) (ht s) (nt s)"
    using gating_trajectory_in_cube [of mt ht nt Vt q T s] by simp
qed



theorem gating_unit_cube_forward_invariant_witness:
  "(- 80 :: real) \<noteq> - 40 \<and> (- 80 :: real) \<noteq> - 55 \<and>
   (\<exists>am bm ah bh an bn.
      alpha_m (- 80) = Some am \<and> beta_m (- 80) = Some bm \<and> alpha_h (- 80) = Some ah \<and>
      beta_h (- 80) = Some bh \<and> alpha_n (- 80) = Some an \<and> beta_n (- 80) = Some bn \<and>
      0 < am \<and> 0 < bm \<and> 0 < ah \<and> 0 < bh \<and> 0 < an \<and> 0 < bn) \<and>
   (\<exists>ds dm dh dn. rhs_E6 y0 0 p_E6 = Inr ds \<and> take 3 ds = [Some dm, Some dh, Some dn] \<and>
      0 \<le> dm \<and> dh \<le> 0 \<and> 0 \<le> dn) \<and>
   gating_trajectory
     (relax (HH_alpha_m (- 80)) (HH_beta_m (- 80)) m0)
     (relax (HH_alpha_h (- 80)) (HH_beta_h (- 80)) h0)
     (relax (HH_alpha_n (- 80)) (HH_beta_n (- 80)) n0)
     V_touch p_E6 1 \<and>
   V_touch (1 / 3) = - 55 \<and> V_touch (2 / 3) = - 40 \<and>
   finite {s. 0 \<le> s \<and> s \<le> 1 \<and> (V_touch s = - 40 \<or> V_touch s = - 55)} \<and>
   in_unit_cube m0 h0 n0 \<and>
   in_unit_cube
     (relax (HH_alpha_m (- 80)) (HH_beta_m (- 80)) m0 1)
     (relax (HH_alpha_h (- 80)) (HH_beta_h (- 80)) h0 1)
     (relax (HH_alpha_n (- 80)) (HH_beta_n (- 80)) n0 1)"
proof -
  let ?m = "relax (HH_alpha_m (- 80)) (HH_beta_m (- 80)) m0"
  let ?h = "relax (HH_alpha_h (- 80)) (HH_beta_h (- 80)) h0"
  let ?n = "relax (HH_alpha_n (- 80)) (HH_beta_n (- 80)) n0"
  have V: "(- 80 :: real) \<noteq> - 40 \<and> (- 80 :: real) \<noteq> - 55" by simp
  have r: "\<exists>ds. rhs_E6 [0, 1, 0, - 80] 0 p_E6 = Inr ds"
    by (simp add: p_E6_def rhs_E6_params)
  have traj: "gating_trajectory ?m ?h ?n V_touch p_E6 1"
    unfolding p_E6_def by (rule touch_trajectory)
  have fin: "finite {s. 0 \<le> s \<and> s \<le> 1 \<and> (V_touch s = - 40 \<or> V_touch s = - 55)}"
    by (rule V_touch_finite)
  have touch: "V_touch (1 / 3) = - 55 \<and> V_touch (2 / 3) = - 40"
    by (simp add: V_touch_def)
  have init: "in_unit_cube (?m 0) (?h 0) (?n 0)"
    by (simp add: relax_0 in_unit_cube_def m0_def h0_def n0_def)
  have one: "(0 :: real) \<le> 1 \<and> (1 :: real) \<le> 1" by simp
  from gating_unit_cube_forward_invariant
         [of "- 80" 0 1 0 0 p_E6 ?m ?h ?n V_touch p_E6 1] V r traj fin touch init one
  show ?thesis
    by (auto simp: y0_def m0_def h0_def n0_def V0_def relax_0)
qed


subsection \<open>The sign of the bistable reaction\<close>

lemma bistable_factor:
  "bistable_reaction u r = r * (u * ((1 - u) * (u - 0.3)))"
  by (simp add: bistable_reaction_def field_simps)

text \<open>The sign for every real \<open>u\<close>; below zero the term is positive.\<close>

lemma bistable_reaction_sign_real:
  assumes "0 < r"
  shows "(0 < bistable_reaction u r \<longleftrightarrow> u < 0 \<or> (0.3 < u \<and> u < 1)) \<and>
         (bistable_reaction u r < 0 \<longleftrightarrow> (0 < u \<and> u < 0.3) \<or> 1 < u) \<and>
         (bistable_reaction u r = 0 \<longleftrightarrow> u = 0 \<or> u = 0.3 \<or> u = 1)"
  using assms unfolding bistable_factor
  by (auto simp: zero_less_mult_iff mult_less_0_iff)

text \<open>
  C7: for every rate parameter \<open>r > 0\<close> and every concentration \<open>u \<ge> 0\<close>, the reaction
  term \<open>-u*r*(1-u)*(0.3-u)\<close> is strictly positive exactly when \<open>0.3 < u < 1\<close>, strictly
  negative exactly when \<open>0 < u < 0.3\<close> or \<open>u > 1\<close>, and zero exactly at \<open>u = 0\<close>,
  \<open>u = 0.3\<close> and \<open>u = 1\<close>: the sign pattern of the comment above its definition.
\<close>

theorem bistable_reaction_sign:
  assumes "0 < r" and "0 \<le> u"
  shows "(0 < bistable_reaction u r \<longleftrightarrow> 0.3 < u \<and> u < 1) \<and>
         (bistable_reaction u r < 0 \<longleftrightarrow> (0 < u \<and> u < 0.3) \<or> 1 < u) \<and>
         (bistable_reaction u r = 0 \<longleftrightarrow> u = 0 \<or> u = 0.3 \<or> u = 1)"
  using bistable_reaction_sign_real [OF assms(1), of u] assms(2) by auto

theorem bistable_reaction_sign_witness:
  "(0 :: real) < 1 \<and> (0 :: real) \<le> 0.5 \<and> (0 :: real) \<le> 0.2 \<and> (0 :: real) \<le> 2 \<and>
   (0 :: real) \<le> 0.3 \<and>
   0 < bistable_reaction 0.5 1 \<and> bistable_reaction 0.2 1 < 0 \<and>
   bistable_reaction 2 1 < 0 \<and> bistable_reaction 0.3 1 = 0 \<and> bistable_reaction 0 1 = 0 \<and>
   bistable_reaction 1 1 = 0"
  using bistable_reaction_sign [of 1 "0.5"] bistable_reaction_sign [of 1 "0.2"]
    bistable_reaction_sign [of 1 2] bistable_reaction_sign [of 1 "0.3"]
    bistable_reaction_sign [of 1 0] bistable_reaction_sign [of 1 1]
  by simp

subsection \<open>The callback forgets the history\<close>

lemma set_step_related:
  assumes setc: "\<And>i c a b. R a b \<Longrightarrow>
        R (node_set_concentration sim i c a) (node_set_concentration sim i c b)"
    and "R a b"
  shows "R (set_step sim f nodes a) (set_step sim f nodes b)"
  using assms(2)
proof (induction nodes arbitrary: a b)
  case Nil
  then show ?case by simp
next
  case (Cons node nodes)
  obtain i x where node: "node = (i, x)" by (cases node)
  show ?case
    unfolding node set_step.simps
    by (rule Cons.IH) (use Cons.prems setc in auto)
qed

lemma run_and_plot_related:
  assumes run: "\<And>T a b. R a b \<Longrightarrow> R (h_continuerun sim T a) (h_continuerun sim T b)"
    and obs: "\<And>a b. R a b \<Longrightarrow> curve_of sim a = curve_of sim b"
    and "R a b"
  shows "fst (run_and_plot sim is a) = fst (run_and_plot sim is b) \<and>
         R (snd (run_and_plot sim is a)) (snd (run_and_plot sim is b))"
  using assms(3)
proof (induction "is" arbitrary: a b)
  case Nil
  then show ?case by simp
next
  case (Cons i "is")
  from run [OF Cons.prems] have R': "R (h_continuerun sim (real i * 25) a)
      (h_continuerun sim (real i * 25) b)" .
  from Cons.IH [OF R'] obs [OF R'] show ?case
    by (simp add: Let_def split_beta)
qed

text \<open>
  C6: two calls of \<open>runneuron\<close> with equal arguments plot equal concentration
  profiles, whatever state the earlier slider changes left behind. What is asked of
  the simulator is stated with a relation \<open>R\<close> between states, "equal in all that the
  simulation and the plots read": after \<open>r_param.initial\<close> is set and \<open>h.finitialize()\<close>
  has run, any two states are related; setting a concentration and running on keep
  related states related; and related states show the same node positions, the same
  concentrations and the same length of the section.
\<close>

theorem runneuron_history_independent:
  fixes sim :: "'s neuron" and R :: "'s \<Rightarrow> 's \<Rightarrow> bool"
  assumes reset: "\<And>a b. R (h_finitialize sim (r_param_set_initial sim rate_param a))
                         (h_finitialize sim (r_param_set_initial sim rate_param b))"
    and setc: "\<And>i c a b. R a b \<Longrightarrow>
        R (node_set_concentration sim i c a) (node_set_concentration sim i c b)"
    and run: "\<And>T a b. R a b \<Longrightarrow> R (h_continuerun sim T a) (h_continuerun sim T b)"
    and obs: "\<And>a b. R a b \<Longrightarrow> u_nodes_x sim a = u_nodes_x sim b \<and>
        u_nodes_concentration sim a = u_nodes_concentration sim b \<and> dend_L sim a = dend_L sim b"
  shows "fst (runneuron sim rate_param fraction_initial a) =
         fst (runneuron sim rate_param fraction_initial b)"
proof -
  let ?a2 = "h_finitialize sim (r_param_set_initial sim rate_param a)"
  let ?b2 = "h_finitialize sim (r_param_set_initial sim rate_param b)"
  have R2: "R ?a2 ?b2" by (rule reset)
  then have x: "u_nodes_x sim ?a2 = u_nodes_x sim ?b2" using obs by blast
  have cur: "curve_of sim c = curve_of sim d" if "R c d" for c d
    using obs [OF that] by (simp add: curve_of_def)
  let ?a3 = "set_step sim fraction_initial (enumerate 0 (u_nodes_x sim ?a2)) ?a2"
  let ?b3 = "set_step sim fraction_initial (enumerate 0 (u_nodes_x sim ?b2)) ?b2"
  have R3: "R ?a3 ?b3"
    unfolding x by (rule set_step_related [of R sim, OF setc R2])
  from run_and_plot_related [of R sim ?a3 ?b3 "[1, 2, 3, 4]", OF run cur R3] cur [OF R3]
  show ?thesis
    by (simp add: runneuron_def Let_def split_beta del: run_and_plot.simps)
qed

lemma toy_runs_run_and_plot:
  "toy_runs (snd (run_and_plot toy is s)) = toy_runs s"
  by (induction "is" arbitrary: s) (simp_all add: Let_def split_beta toy_def)

lemma toy_runs_set_step:
  "toy_runs (set_step toy f nodes s) = toy_runs s"
  by (induction nodes arbitrary: s) (auto simp: toy_def)

lemma toy_runs_runneuron:
  "toy_runs (snd (runneuron toy r f s)) = Suc (toy_runs s)"
  by (simp add: runneuron_def Let_def split_beta toy_runs_run_and_plot toy_runs_set_step
      del: run_and_plot.simps) (simp add: toy_def)

theorem runneuron_history_independent_witness:
  "fst (runneuron toy 0.5 0.2 toy_start) =
   fst (runneuron toy 0.5 0.2 (snd (runneuron toy 1.5 0.7 toy_start))) \<and>
   toy_runs toy_start = 0 \<and> toy_runs (snd (runneuron toy 1.5 0.7 toy_start)) = 1"
proof -
  have "fst (runneuron toy 0.5 0.2 toy_start) =
        fst (runneuron toy 0.5 0.2 (snd (runneuron toy 1.5 0.7 toy_start)))"
    by (rule runneuron_history_independent [where R = toy_same])
      (simp_all add: toy_def toy_same_def)
  then show ?thesis
    by (simp add: toy_runs_runneuron) (simp add: toy_start_def)
qed


subsection \<open>Solve, then plot the columns\<close>

lemma column_shape:
  assumes "list_all (\<lambda>row. length row = k) y" and "i < k"
  shows "column i y = Inr (map (\<lambda>row. row ! i) y)"
  using assms by (auto simp: column_def list_all_iff)

text \<open>
  C9: in the E6 notebook the solver is called before anything is plotted, on the
  initial condition \<open>[m0, h0, n0, V0]\<close>; when it returns an array \<open>y\<close> with one column
  for each state, the traces plotted are the columns of \<open>y\<close> in the order of the states
  (\<open>V = y[:,3]\<close> in the first panel, \<open>m = y[:,0]\<close>, \<open>h = y[:,1]\<close>, \<open>n = y[:,2]\<close> in the
  second), and with \<open>y0\<close> in the first row each trace starts at its own initial value.
  When the solver raises, nothing is plotted. \<open>rhs\<close> returns its derivatives in the
  same order: the gate equations of \<open>m\<close>, \<open>h\<close>, \<open>n\<close>, then \<open>dV_dt\<close>.
\<close>

theorem run_model_solves_then_plots_columns:
  "(odeint (\<lambda>y t. rhs_E6 y t p_E6) y0 time_E6 = Inr y \<and>
    list_all (\<lambda>row. length row = length y0) y \<and> take 1 y = [y0] \<longrightarrow>
      run_model odeint =
        ([Odeint_call [m0, h0, n0, V0] time_E6,
          Subplot 1 2 1,
          Plot [(time_E6, map (\<lambda>row. row ! 3) y, ''b'')],
          Subplot 1 2 2,
          Plot [(time_E6, map (\<lambda>row. row ! 0) y, ''r''),
                (time_E6, map (\<lambda>row. row ! 1) y, ''g''),
                (time_E6, map (\<lambda>row. row ! 2) y, ''m'')]], None) \<and>
      map (\<lambda>i. take 1 (map (\<lambda>row. row ! i) y)) [0, 1, 2, 3] = [[m0], [h0], [n0], [V0]]) \<and>
   (failing (\<lambda>y t. rhs_E6 y t p_E6) y0 time_E6 = Inl e \<longrightarrow>
      run_model failing = ([Odeint_call [m0, h0, n0, V0] time_E6], Some e)) \<and>
   (\<exists>dV_dt. rhs_E6 [m, h, n, V] t p_E6 =
      Inr [gate_dt (alpha_m V) (beta_m V) m, gate_dt (alpha_h V) (beta_h V) h,
           gate_dt (alpha_n V) (beta_n V) n, dV_dt])"
proof (intro conjI impI)
  assume a: "odeint (\<lambda>y t. rhs_E6 y t p_E6) y0 time_E6 = Inr y \<and>
    list_all (\<lambda>row. length row = length y0) y \<and> take 1 y = [y0]"
  have "length y0 = 4" by (simp add: y0_def)
  with a have sh: "list_all (\<lambda>row. length row = 4) y" by simp
  note col = column_shape [OF sh]
  from a show "run_model odeint =
        ([Odeint_call [m0, h0, n0, V0] time_E6,
          Subplot 1 2 1,
          Plot [(time_E6, map (\<lambda>row. row ! 3) y, ''b'')],
          Subplot 1 2 2,
          Plot [(time_E6, map (\<lambda>row. row ! 0) y, ''r''),
                (time_E6, map (\<lambda>row. row ! 1) y, ''g''),
                (time_E6, map (\<lambda>row. row ! 2) y, ''m'')]], None)"
    by (simp add: run_model_def col) (simp add: y0_def)
  from a obtain rows where "y = y0 # rows" by (cases y) auto
  then show "map (\<lambda>i. take 1 (map (\<lambda>row. row ! i) y)) [0, 1, 2, 3] = [[m0], [h0], [n0], [V0]]"
    by (simp add: y0_def)
next
  assume "failing (\<lambda>y t. rhs_E6 y t p_E6) y0 time_E6 = Inl e"
  then show "run_model failing = ([Odeint_call [m0, h0, n0, V0] time_E6], Some e)"
    by (simp add: run_model_def) (simp add: y0_def)
next
  show "\<exists>dV_dt. rhs_E6 [m, h, n, V] t p_E6 =
      Inr [gate_dt (alpha_m V) (beta_m V) m, gate_dt (alpha_h V) (beta_h V) h,
           gate_dt (alpha_n V) (beta_n V) n, dV_dt]"
    by (simp add: p_E6_def rhs_E6_params)
qed

lemma euler_shape:
  assumes "\<And>y t. length y = k \<Longrightarrow> \<exists>ds. f y t = Inr ds \<and> length ds = k"
    and "length y = k"
  shows "\<exists>rows. euler f y ts = Inr rows \<and> length rows = length ts \<and>
           list_all (\<lambda>row. length row = k) rows \<and> take 1 rows = take 1 (map (\<lambda>t. y) ts)"
  using assms
proof (induction f y ts rule: euler.induct)
  case (1 f y)
  then show ?case by simp
next
  case (2 f y t)
  then show ?case by simp
next
  case (3 f y t t' ts)
  from "3.prems" obtain ds where ds: "f y t = Inr ds" "length ds = k" by blast
  let ?y' = "map2 (\<lambda>yi d. case d of None \<Rightarrow> yi | Some d' \<Rightarrow> yi + (t' - t) * d') y ds"
  have "length ?y' = k" using ds "3.prems" by simp
  from "3.IH" [OF "3.prems"(1) this] obtain rows where
    "euler f ?y' (t' # ts) = Inr rows" "length rows = length (t' # ts)"
    "list_all (\<lambda>row. length row = k) rows" by blast
  with ds "3.prems" show ?case by simp
qed

lemma time_E6_length: "length time_E6 = 1000"
  by (simp add: time_E6_def)

theorem run_model_solves_then_plots_columns_witness:
  "\<exists>y. euler (\<lambda>y t. rhs_E6 y t p_E6) y0 time_E6 = Inr y \<and>
     list_all (\<lambda>row. length row = length y0) y \<and> take 1 y = [y0] \<and>
     run_model euler =
        ([Odeint_call [m0, h0, n0, V0] time_E6,
          Subplot 1 2 1,
          Plot [(time_E6, map (\<lambda>row. row ! 3) y, ''b'')],
          Subplot 1 2 2,
          Plot [(time_E6, map (\<lambda>row. row ! 0) y, ''r''),
                (time_E6, map (\<lambda>row. row ! 1) y, ''g''),
                (time_E6, map (\<lambda>row. row ! 2) y, ''m'')]], None) \<and>
     map (\<lambda>i. take 1 (map (\<lambda>row. row ! i) y)) [0, 1, 2, 3] = [[m0], [h0], [n0], [V0]] \<and>
     (\<lambda>f y ts. Inl ValueError) (\<lambda>y t. rhs_E6 y t p_E6) y0 time_E6 = Inl ValueError \<and>
     run_model (\<lambda>f y ts. Inl ValueError) =
       ([Odeint_call [m0, h0, n0, V0] time_E6], Some ValueError)"
proof -
  have len: "length y0 = 4" by (simp add: y0_def)
  have f: "\<exists>ds. rhs_E6 y t p_E6 = Inr ds \<and> length ds = 4" if "length y = 4" for y t
  proof -
    from that obtain a b c d where "y = [a, b, c, d]"
      by (auto simp: length_Suc_conv numeral_eq_Suc)
    then show ?thesis by (simp add: p_E6_def rhs_E6_params)
  qed
  have "time_E6 \<noteq> []" using time_E6_length by auto
  then obtain t0 ts where ts: "time_E6 = t0 # ts" by (cases time_E6) auto
  from euler_shape [of 4 "\<lambda>y t. rhs_E6 y t p_E6" y0 time_E6, OF f len]
  obtain y where y: "euler (\<lambda>y t. rhs_E6 y t p_E6) y0 time_E6 = Inr y"
    "list_all (\<lambda>row. length row = length y0) y" "take 1 y = [y0]"
    by (auto simp: len ts)
  from run_model_solves_then_plots_columns
         [of euler y "\<lambda>f y ts. Inl ValueError" ValueError] y
  show ?thesis by blast
qed


end
